theory Spec2Isabelle
  imports Main "HOL-Library.Finite_Map"
begin

section \<open>DataForge: operations, events, traits and mutation drafts\<close>

text \<open>
  The development embeds the functional DataForge implementation
  (\<^verbatim>\<open>createWorld\<close>, \<^verbatim>\<open>defineTrait\<close>, \<^verbatim>\<open>applyTrait\<close>, \<^verbatim>\<open>createOperation\<close>,
  \<^verbatim>\<open>on\<close>, \<^verbatim>\<open>createDraftHandler\<close>, \<^verbatim>\<open>mutate\<close>) and, separately, the delta
  algebra that the design document describes and the implementation does not contain.
\<close>

subsection \<open>JavaScript values and errors\<close>

text \<open>
  A JavaScript value is a primitive or a reference. References carry the address of
  the object they denote, so that \<^verbatim>\<open>===\<close> on references is equality of addresses.
  Numbers are modelled by integers together with \<^verbatim>\<open>NaN\<close>, the one number that is
  not strictly equal to itself; no property below depends on arithmetic.
\<close>

datatype jsval =
    JUndefined
  | JNull
  | JBool bool
  | JNum int
  | JNaN
  | JStr string
  | JFunc nat
  | JObj nat
  | JArr nat

datatype PrimitiveType = P_string | P_number | P_boolean | P_date | P_any

text \<open>
  One constructor per \<^verbatim>\<open>throw new Error(...)\<close> of the implementation, named after
  its message; \<open>TypeError\<close> is the runtime's own error, and \<open>Thrown\<close> is whatever a
  callback supplied by the caller throws.
\<close>

datatype error =
    TraitNotFound string
  | TraitNotApplicable string PrimitiveType
  | MissingRequiredParameter string string
  | TraitRequiresParameters string "string list"
  | TypeError
  | Thrown string

subsection \<open>Cells, traits, operations and the world\<close>

record TraitImplementation =
  validation :: "(jsval \<Rightarrow> bool) option"
  errorMessage :: "string option"

record TraitDefinition =
  name :: string
  appliesTo :: "PrimitiveType list"
  parameters :: "string list option"
  implementation :: "(string \<rightharpoonup> jsval) \<Rightarrow> TraitImplementation"

record TraitInstance =
  trait_definition :: TraitDefinition
  parameters :: "string \<rightharpoonup> jsval"
  implementation :: TraitImplementation

record Cell =
  name :: string
  primitiveType :: PrimitiveType
  version :: int
  validation :: "(jsval \<Rightarrow> bool) option"
  errorMessage :: "string option"
  traits :: "string \<rightharpoonup> TraitInstance"

datatype ExecutionLocation = client | server | database

record OperationProperties =
  associative :: "bool option"
  commutative :: "bool option"
  idempotent :: "bool option"
  deterministic :: "bool option"
  pure :: "bool option"
  conflictFree :: "bool option"
  locations :: "ExecutionLocation list option"

datatype OperationType = producer | mutator | filter_op

record ReversableWith =
  operation :: string
  inputs :: "string list"

record Operation =
  name :: string
  version :: int
  op_type :: "OperationType option"
  inputs :: "Cell list"
  output_cell :: Cell
  operation :: "jsval list \<Rightarrow> error + jsval"
  properties :: OperationProperties
  reversableWith :: "ReversableWith option"

record StorageLocation =
  sl_type :: string
  connection :: string
  sl_name :: "string option"

text \<open>
  The world's registries are JavaScript objects used as dictionaries keyed by name.
  The registries of columns, rows, properties and entities are built exactly like
  \<open>cells\<close> and \<open>operations\<close> and no statement below reads them; they are left out.
\<close>

record World =
  storageLocations :: "StorageLocation list"
  traits :: "string \<rightharpoonup> TraitDefinition"
  cells :: "string \<rightharpoonup> Cell"
  operations :: "string \<rightharpoonup> Operation"

text \<open>
  \<^verbatim>\<open>createWorld\<close> is the one function that writes into a world object: it assigns
  \<^verbatim>\<open>world.traits[trait.name] = trait\<close> for each initial trait, in order.
\<close>

definition createWorld :: "StorageLocation list \<Rightarrow> TraitDefinition list option \<Rightarrow> World" where
  "createWorld storageLocations0 traits0 =
     (let world = \<lparr>storageLocations = storageLocations0, traits = Map.empty,
                    cells = Map.empty, operations = Map.empty\<rparr>
      in case traits0 of
           None \<Rightarrow> world
         | Some ts \<Rightarrow>
             foldl (\<lambda>w trait. w\<lparr>traits := (World.traits w)(TraitDefinition.name trait \<mapsto> trait)\<rparr>)
               world ts)"

text \<open>\<^verbatim>\<open>defineTrait\<close> returns the extended copy of the world.\<close>

definition defineTrait :: "World \<Rightarrow> TraitDefinition \<Rightarrow> World" where
  "defineTrait world definition0 =
     world\<lparr>traits := (World.traits world)(TraitDefinition.name definition0 \<mapsto> definition0)\<rparr>"

text \<open>
  \<^verbatim>\<open>createOperation\<close> copies the definition into \<^verbatim>\<open>operation\<close>, builds
  \<^verbatim>\<open>updatedWorld\<close> (the world with \<^verbatim>\<open>operation\<close> stored under its name) and returns
  \<^verbatim>\<open>operation\<close>. The local \<^verbatim>\<open>updatedWorld\<close> is neither returned nor assigned to
  anything, and no field of \<^verbatim>\<open>world\<close> is written. The body has no \<^verbatim>\<open>throw\<close>.
  The model returns the world as the caller sees it after the call, paired with the
  returned operation.
\<close>

definition updatedWorld :: "World \<Rightarrow> Operation \<Rightarrow> World" where
  "updatedWorld world operation0 =
     world\<lparr>operations := (operations world)(Operation.name operation0 \<mapsto> operation0)\<rparr>"

definition createOperation :: "World \<Rightarrow> Operation \<Rightarrow> error + World \<times> Operation" where
  "createOperation world definition0 =
     (let operation0 = definition0;
          updated = updatedWorld world operation0
      in Inr (world, operation0))"

subsection \<open>Applying a trait to a cell\<close>






subsection \<open>Operation functions and their subscribers\<close>

text \<open>
  \<^verbatim>\<open>on(world, operation)\<close> creates an array \<^verbatim>\<open>subscribers\<close> and returns the pair
  \<^verbatim>\<open>[operationFn, subscribe]\<close>. A handler is a JavaScript function, identified by
  its address: \<^verbatim>\<open>indexOf\<close> compares by identity. What a handler does when it is
  called is the sequence of calls it makes to \<^verbatim>\<open>subscribe\<close> and to unsubscribe
  functions of this same bus, followed by a normal return (\<open>None\<close>) or a throw
  (\<open>Some e\<close>). It may depend on the arguments and on every handler call made before
  (a handler may keep state). A handler that calls \<^verbatim>\<open>operationFn\<close> again from inside
  a notification is outside this model.
\<close>

datatype bus_call = Subscribe nat | Unsubscribe nat

type_synonym history = "(nat \<times> jsval list) list"

type_synonym handlers = "history \<Rightarrow> nat \<Rightarrow> jsval list \<Rightarrow> bus_call list \<times> error option"

text \<open>
  \<open>notified\<close> lists the handler calls made so far, each with the arguments passed;
  \<open>console_error\<close> lists what \<^verbatim>\<open>console.error\<close> was given.
\<close>

record bus =
  subscribers :: "nat list"
  notified :: history
  console_error :: "error list"

definition on_bus :: bus where
  "on_bus = \<lparr>subscribers = [], notified = [], console_error = []\<rparr>"

text \<open>\<^verbatim>\<open>subscribers.push(handler)\<close>.\<close>

definition subscribe :: "nat \<Rightarrow> bus \<Rightarrow> bus" where
  "subscribe handler b = b\<lparr>subscribers := subscribers b @ [handler]\<rparr>"

text \<open>
  The function \<^verbatim>\<open>subscribe\<close> returns: \<^verbatim>\<open>indexOf\<close> finds the first position of the
  handler and \<^verbatim>\<open>splice(index, 1)\<close> removes that element; nothing happens when the
  handler is not in the array.
\<close>

definition unsubscribe :: "nat \<Rightarrow> bus \<Rightarrow> bus" where
  "unsubscribe handler b = b\<lparr>subscribers := remove1 handler (subscribers b)\<rparr>"

fun bus_call_apply :: "bus \<Rightarrow> bus_call \<Rightarrow> bus" where
  "bus_call_apply b (Subscribe g) = subscribe g b"
| "bus_call_apply b (Unsubscribe g) = unsubscribe g b"

text \<open>
  The body of the \<^verbatim>\<open>forEach\<close> callback: \<^verbatim>\<open>try { handler(...args) } catch (error)
  { console.error(...) }\<close>.
\<close>

definition notify :: "handlers \<Rightarrow> jsval list \<Rightarrow> nat \<Rightarrow> bus \<Rightarrow> bus" where
  "notify hs args handler b =
     (case hs (notified b) handler args of
        (calls, outcome) \<Rightarrow>
          (let b1 = foldl bus_call_apply (b\<lparr>notified := notified b @ [(handler, args)]\<rparr>) calls
           in case outcome of
                None \<Rightarrow> b1
              | Some e \<Rightarrow> b1\<lparr>console_error := console_error b1 @ [e]\<rparr>))"

text \<open>
  \<^verbatim>\<open>Array.prototype.forEach\<close>: the length \<open>len\<close> is read once, before the first
  call; for each index \<open>k\<close> below it, in ascending order, the callback is called with
  the element that is at index \<open>k\<close> at that moment, and an index that is no longer in
  the array is passed over.
\<close>

function forEach :: "handlers \<Rightarrow> jsval list \<Rightarrow> nat \<Rightarrow> nat \<Rightarrow> bus \<Rightarrow> bus" where
  "forEach hs args len k b =
     (if k < len
      then (if k < length (subscribers b)
            then forEach hs args len (Suc k) (notify hs args (subscribers b ! k) b)
            else forEach hs args len (Suc k) b)
      else b)"
  by pat_completeness auto
termination
  by (relation "measure (\<lambda>(hs, args, len, k, b). len - k)") auto

declare forEach.simps [simp del]

definition operationFn ::
  "Operation \<Rightarrow> handlers \<Rightarrow> jsval list \<Rightarrow> bus \<Rightarrow> (error + jsval) \<times> bus" where
  "operationFn operation0 hs args b =
     (case Operation.operation operation0 args of
        Inl e \<Rightarrow> (Inl e, b)
      | Inr result \<Rightarrow> (Inr result, forEach hs args (length (subscribers b)) 0 b))"





text \<open>The handlers that behave like \<open>hs\<close> and never throw.\<close>

definition silenced :: "handlers \<Rightarrow> handlers" where
  "silenced hs = (\<lambda>hist handler args. (fst (hs hist handler args), None))"

text \<open>
  The errors thrown, in order, when the handlers of a list are called one after the
  other with the same arguments, starting from a given history.
\<close>

fun thrown_by :: "handlers \<Rightarrow> jsval list \<Rightarrow> history \<Rightarrow> nat list \<Rightarrow> error list" where
  "thrown_by hs args hist [] = []"
| "thrown_by hs args hist (g # gs) =
     (case snd (hs hist g args) of None \<Rightarrow> [] | Some e \<Rightarrow> [e])
       @ thrown_by hs args (hist @ [(g, args)]) gs"

subsection \<open>Mutation drafts\<close>

text \<open>
  Entity instances are JavaScript objects with nested objects and arrays, and the
  draft shares the nested ones with the entity, so objects live in a heap. An object
  maps property names to values; a property that is absent reads as \<^verbatim>\<open>undefined\<close>.
  Properties inherited from prototypes and the built-in properties of primitive
  values are not modelled.
\<close>

type_synonym obj = "string \<Rightarrow> jsval"

record js_heap =
  objs :: "nat \<Rightarrow> obj"
  next_addr :: nat

text \<open>An object literal \<^verbatim>\<open>{ ...source }\<close>: a new object with the source's properties.\<close>

definition spread :: "js_heap \<Rightarrow> nat \<Rightarrow> nat \<times> js_heap" where
  "spread h source =
     (next_addr h,
      h\<lparr>objs := (objs h)(next_addr h := objs h source), next_addr := Suc (next_addr h)\<rparr>)"

definition write_prop :: "js_heap \<Rightarrow> nat \<Rightarrow> string \<Rightarrow> jsval \<Rightarrow> js_heap" where
  "write_prop h a prop v = h\<lparr>objs := (objs h)(a := (objs h a)(prop := v))\<rparr>"

record Change =
  path :: "string list"
  oldValue :: jsval
  newValue :: jsval

text \<open>
  \<^verbatim>\<open>a !== b\<close>: the values differ, or they are both \<^verbatim>\<open>NaN\<close>. References are equal
  when they are the same address.
\<close>

definition strict_neq :: "jsval \<Rightarrow> jsval \<Rightarrow> bool" where
  "strict_neq a b = (a \<noteq> b \<or> a = JNaN)"

text \<open>
  What an expression \<^verbatim>\<open>draft.p1.p2...\<close> evaluates to: a proxy made by
  \<^verbatim>\<open>createDraftHandler\<close> around the object at an address, with the path that led to
  it, or a value that is not wrapped.
\<close>

datatype cursor = Proxied nat "string list" | Raw jsval

text \<open>
  The \<^verbatim>\<open>get\<close> trap. Functions, and the properties named \<^verbatim>\<open>save\<close>, \<^verbatim>\<open>update\<close> and
  \<^verbatim>\<open>delete\<close>, are returned as they are; an object that is not an array is wrapped
  in a new proxy that shares the change list; anything else is returned as it is.
\<close>

definition draft_get :: "js_heap \<Rightarrow> nat \<Rightarrow> string list \<Rightarrow> string \<Rightarrow> cursor" where
  "draft_get h target path0 prop =
     (let currentPath = path0 @ [prop];
          value = objs h target prop
      in if (case value of JFunc f \<Rightarrow> True | _ \<Rightarrow> False)
            \<or> prop = ''save'' \<or> prop = ''update'' \<or> prop = ''delete''
         then Raw value
         else (case value of JObj a \<Rightarrow> Proxied a currentPath | _ \<Rightarrow> Raw value))"

text \<open>
  The \<^verbatim>\<open>set\<close> trap: the change is recorded only when the old value \<^verbatim>\<open>!==\<close> the new
  one; the property of the target is written in either case.
\<close>

definition draft_set ::
  "js_heap \<Rightarrow> Change list \<Rightarrow> nat \<Rightarrow> string list \<Rightarrow> string \<Rightarrow> jsval
     \<Rightarrow> js_heap \<times> Change list" where
  "draft_set h changes target path0 prop value =
     (let currentPath = path0 @ [prop];
          old = objs h target prop
      in (write_prop h target prop value,
          if strict_neq old value
          then changes @ [\<lparr>path = currentPath, oldValue = old, newValue = value\<rparr>]
          else changes))"

text \<open>
  Property access on a value that is not a draft proxy. Reading a property of
  \<^verbatim>\<open>undefined\<close> or \<^verbatim>\<open>null\<close> throws; so does, in module code, assigning to a property
  of anything that is not an object.
\<close>

definition plain_get :: "js_heap \<Rightarrow> jsval \<Rightarrow> string \<Rightarrow> error + jsval" where
  "plain_get h v prop =
     (case v of
        JUndefined \<Rightarrow> Inl TypeError
      | JNull \<Rightarrow> Inl TypeError
      | JObj a \<Rightarrow> Inr (objs h a prop)
      | JArr a \<Rightarrow> Inr (objs h a prop)
      | JFunc a \<Rightarrow> Inr (objs h a prop)
      | _ \<Rightarrow> Inr JUndefined)"

definition object_of :: "jsval \<Rightarrow> nat option" where
  "object_of v =
     (case v of JObj a \<Rightarrow> Some a | JArr a \<Rightarrow> Some a | JFunc a \<Rightarrow> Some a | _ \<Rightarrow> None)"

text \<open>
  A mutator is a sequence of assignments \<^verbatim>\<open>draft.p1. ... .pn.prop = value\<close>; the
  assigned value is a primitive or a reference to an object of the heap.
\<close>

datatype assignment = Assign "string list" string jsval

fun resolve :: "js_heap \<Rightarrow> cursor \<Rightarrow> string list \<Rightarrow> error + cursor" where
  "resolve h c [] = Inr c"
| "resolve h (Proxied a path0) (p # ps) = resolve h (draft_get h a path0 p) ps"
| "resolve h (Raw v) (p # ps) =
     (case plain_get h v p of Inl e \<Rightarrow> Inl e | Inr v' \<Rightarrow> resolve h (Raw v') ps)"

fun assign ::
  "js_heap \<Rightarrow> Change list \<Rightarrow> nat \<Rightarrow> assignment \<Rightarrow> error + js_heap \<times> Change list" where
  "assign h changes target (Assign ps prop value) =
     (case resolve h (Proxied target []) ps of
        Inl e \<Rightarrow> Inl e
      | Inr (Proxied a path0) \<Rightarrow> Inr (draft_set h changes a path0 prop value)
      | Inr (Raw v) \<Rightarrow>
          (case object_of v of
             None \<Rightarrow> Inl TypeError
           | Some a \<Rightarrow> Inr (write_prop h a prop value, changes)))"

fun run_mutator ::
  "js_heap \<Rightarrow> Change list \<Rightarrow> nat \<Rightarrow> assignment list \<Rightarrow> error + js_heap \<times> Change list" where
  "run_mutator h changes target [] = Inr (h, changes)"
| "run_mutator h changes target (s # ss) =
     (case assign h changes target s of
        Inl e \<Rightarrow> Inl e
      | Inr (h', changes') \<Rightarrow> run_mutator h' changes' target ss)"

text \<open>
  \<^verbatim>\<open>mutate\<close> returns the entity it was given or the draft proxy. The third component
  of the result lists the functions \<^verbatim>\<open>mutate\<close> itself called: \<^verbatim>\<open>entity.save\<close>, once,
  when changes were recorded. A mutator that throws makes the returned promise
  reject. The parameter \<^verbatim>\<open>world\<close> is not used by the body.
\<close>

datatype returned = Entity nat | Draft nat

definition mutate ::
  "World \<Rightarrow> js_heap \<Rightarrow> nat \<Rightarrow> assignment list
     \<Rightarrow> error + returned \<times> js_heap \<times> nat list" where
  "mutate world h entity mutator0 =
     (case spread h entity of
        (target, h1) \<Rightarrow>
          (case spread h1 entity of
             (base, h2) \<Rightarrow>
               (case run_mutator h2 [] target mutator0 of
                  Inl e \<Rightarrow> Inl e
                | Inr (h3, changes) \<Rightarrow>
                    if length changes = 0
                    then Inr (Entity entity, h3, [])
                    else (case objs h3 entity ''save'' of
                            JFunc f \<Rightarrow> Inr (Draft target, h3, [f])
                          | _ \<Rightarrow> Inl TypeError))))"

text \<open>
  The condition "every assignment the mutator performs writes a value that is equal,
  under \<^verbatim>\<open>!==\<close>, to the value already present": each assignment, at the moment it
  runs, lands on a property of an object, and the value it writes is not \<^verbatim>\<open>!==\<close> the
  property's value.
\<close>

fun writes_same :: "js_heap \<Rightarrow> nat \<Rightarrow> assignment \<Rightarrow> bool" where
  "writes_same h target (Assign ps prop value) =
     (case resolve h (Proxied target []) ps of
        Inl e \<Rightarrow> False
      | Inr (Proxied a path0) \<Rightarrow> \<not> strict_neq (objs h a prop) value
      | Inr (Raw v) \<Rightarrow>
          (case object_of v of
             None \<Rightarrow> False
           | Some a \<Rightarrow> \<not> strict_neq (objs h a prop) value))"

fun all_write_same :: "js_heap \<Rightarrow> nat \<Rightarrow> assignment list \<Rightarrow> bool" where
  "all_write_same h target [] = True"
| "all_write_same h target (s # ss) =
     (writes_same h target s \<and>
      (case assign h [] target s of
         Inl e \<Rightarrow> False
       | Inr (h', changes') \<Rightarrow> all_write_same h' target ss))"

definition recordsNoChanges :: "js_heap \<Rightarrow> nat \<Rightarrow> assignment list \<Rightarrow> bool" where
  "recordsNoChanges h entity mutator0 =
     (case spread h entity of
        (target, h1) \<Rightarrow>
          (case spread h1 entity of (base, h2) \<Rightarrow> all_write_same h2 target mutator0))"

subsection \<open>The delta algebra of the design document\<close>

text \<open>
  Modelled from the spec: the implementation has no delta type and no \<^verbatim>\<open>combine\<close>,
  \<^verbatim>\<open>negate\<close> or \<^verbatim>\<open>isEmpty\<close>. The design document defines a delta as a finite
  mapping from keys to signed integer weights in which a key of weight 0 is not
  present.
\<close>

type_synonym 'a delta = "('a, int) fmap"

text \<open>
  Modelled from the spec: the weight of a key; "is present" means weight \<open>\<noteq> 0\<close>, so
  a key that is not present has weight 0.
\<close>

definition weight :: "'a delta \<Rightarrow> 'a \<Rightarrow> int" where
  "weight d k = (case fmlookup d k of None \<Rightarrow> 0 | Some w \<Rightarrow> w)"

text \<open>
  Modelled from the spec: \<^verbatim>\<open>combine(d1, d2)\<close> is "pointwise addition of weights
  over the union of keys; removes zero-weight keys".
\<close>

definition combine :: "'a delta \<Rightarrow> 'a delta \<Rightarrow> 'a delta" where
  "combine d1 d2 =
     fmfilter (\<lambda>k. weight d1 k + weight d2 k \<noteq> 0)
       (fmmap_keys (\<lambda>k _. weight d1 k + weight d2 k) (d1 ++\<^sub>f d2))"

text \<open>Modelled from the spec: \<^verbatim>\<open>negate(d)\<close> "flips all weights' sign".\<close>

definition negate :: "'a delta \<Rightarrow> 'a delta" where
  "negate d = fmmap uminus d"

text \<open>
  Modelled from the spec: \<^verbatim>\<open>isEmpty(d)\<close> is "true iff no keys have nonzero
  weight".
\<close>

definition isEmpty :: "'a delta \<Rightarrow> bool" where
  "isEmpty d = (fmdom (fmfilter (\<lambda>k. weight d k \<noteq> 0) d) = {||})"

subsection \<open>Example values\<close>

text \<open>
  The values used to evaluate the functions above on concrete inputs: a number cell,
  a string cell, the operation \<^verbatim>\<open>add\<close> on numbers, the trait \<^verbatim>\<open>minLength\<close> with its
  required parameter \<^verbatim>\<open>length\<close>, a few handlers, and a product entity with a nested
  object and an array.
\<close>

definition number_cell :: Cell where
  "number_cell =
     \<lparr>Cell.name = ''number'', primitiveType = P_number, Cell.version = 1,
      Cell.validation = None, Cell.errorMessage = None, Cell.traits = Map.empty\<rparr>"


definition add_operation :: Operation where
  "add_operation =
     \<lparr>Operation.name = ''add'', Operation.version = 1, op_type = Some producer,
      inputs = [number_cell, number_cell], output_cell = number_cell,
      operation = (\<lambda>args. Inr (case args of [JNum a, JNum b] \<Rightarrow> JNum (a + b) | _ \<Rightarrow> JNaN)),
      properties = \<lparr>associative = None, commutative = None, idempotent = None,
        deterministic = None, pure = None, conflictFree = None, locations = None\<rparr>,
      reversableWith = Some \<lparr>ReversableWith.operation = ''subtract'',
        ReversableWith.inputs = [''output'', ''input[]'']\<rparr>\<rparr>"

definition empty_world :: World where
  "empty_world = createWorld [] None"




text \<open>
  Handler 1 throws the first time it is called, handler 3 subscribes handler 4 while
  it is being notified, every other handler just returns.
\<close>

definition example_handlers :: handlers where
  "example_handlers =
     (\<lambda>hist handler args.
        if handler = 1
        then ([], if filter (\<lambda>n. fst n = 1) hist = [] then Some (Thrown ''boom'') else None)
        else if handler = 3 then ([Subscribe 4], None)
        else ([], None))"


text \<open>
  Handler 1 calls its own unsubscribe function when it is notified, and then throws.
\<close>

definition once_throwing_handlers :: handlers where
  "once_throwing_handlers =
     (\<lambda>hist handler args.
        if handler = 1 then ([Unsubscribe 1], Some (Thrown ''boom'')) else ([], None))"

definition product_heap :: js_heap where
  "product_heap =
     \<lparr>objs = (\<lambda>a.
        if a = 0 then
          (\<lambda>p. if p = ''name'' then JStr ''Widget''
                else if p = ''price'' then JNum 25
                else if p = ''rating'' then JNaN
                else if p = ''size'' then JObj 2
                else if p = ''tags'' then JArr 3
                else if p = ''save'' then JFunc 1
                else JUndefined)
        else if a = 2 then (\<lambda>p. if p = ''width'' then JNum 3 else JUndefined)
        else if a = 3 then (\<lambda>p. if p = ''0'' then JStr ''new'' else JUndefined)
        else (\<lambda>p. JUndefined)),
      next_addr = 4\<rparr>"

subsection \<open>An auxiliary function\<close>

text \<open>The handler a call subscribes, if it is a call of \<^verbatim>\<open>subscribe\<close>.\<close>

fun subscribed_by :: "bus_call \<Rightarrow> nat option" where
  "subscribed_by (Subscribe g) = Some g"
| "subscribed_by (Unsubscribe g) = None"

section \<open>Properties\<close>

subsection \<open>Delta algebra\<close>

lemma fmlookup_combine:
  "fmlookup (combine d1 d2) k =
     (if weight d1 k + weight d2 k = 0 then None else Some (weight d1 k + weight d2 k))"
  by (auto simp: combine_def weight_def split: option.splits)

lemma weight_combine: "weight (combine d1 d2) k = weight d1 k + weight d2 k"
  by (simp add: weight_def[of "combine d1 d2"] fmlookup_combine)

lemma weight_negate: "weight (negate d) k = - weight d k"
  by (simp add: weight_def negate_def split: option.splits)

lemma combine_assoc: "combine (combine a b) c = combine a (combine b c)"
  by (rule fmap_ext) (simp add: fmlookup_combine weight_combine add.assoc)

lemma combine_commute: "combine a b = combine b a"
  by (rule fmap_ext) (simp add: fmlookup_combine add.commute)

text \<open>
  C2. For all deltas \<open>a\<close>, \<open>b\<close>, \<open>c\<close>: combining is associative and commutative, and
  the combination carries, at every key, the sum of the two weights, the key being
  present exactly when that sum is not zero.
\<close>

theorem combine_monoid_laws:
  "combine (combine a b) c = combine a (combine b c)
   \<and> combine a b = combine b a
   \<and> weight (combine a b) k = weight a k + weight b k
   \<and> (k |\<in>| fmdom (combine a b)) = (weight a k + weight b k \<noteq> 0)"
proof -
  have "(k |\<in>| fmdom (combine a b)) = (weight a k + weight b k \<noteq> 0)"
    by (simp add: fmlookup_dom_iff fmlookup_combine)
  then show ?thesis
    using combine_assoc [of a b c] combine_commute [of a b] weight_combine [of a b k]
    by simp
qed

text \<open>
  C3. For every delta \<open>d\<close>, combining \<open>d\<close> with its negation gives the empty delta;
  negation flips the sign of every weight.
\<close>

theorem combine_negate_empty:
  "combine d (negate d) = fmempty
   \<and> isEmpty (combine d (negate d))
   \<and> weight (negate d) k = - weight d k"
proof -
  have e: "combine d (negate d) = fmempty"
    by (rule fmap_ext) (simp add: fmlookup_combine weight_negate)
  have "isEmpty fmempty"
    by (simp add: isEmpty_def)
  with e show ?thesis
    by (simp add: weight_negate)
qed


subsection \<open>Registering operations\<close>

text \<open>\<^verbatim>\<open>defineTrait\<close> returns a world whose trait registry holds the definition.\<close>

lemma defineTrait_registers:
  "World.traits (defineTrait world d) (TraitDefinition.name d) = Some d"
  by (simp add: defineTrait_def)

text \<open>
  C4. Registering a descriptor with \<^verbatim>\<open>createOperation\<close> is claimed to extend the
  world's operation catalog, so that the catalog then holds the descriptor under its
  name. Evaluated on the empty world and the operation \<^verbatim>\<open>add\<close>: the call returns the
  operation, the catalog of the world has no entry \<^verbatim>\<open>add\<close> afterwards, and the entry
  is in \<^verbatim>\<open>updatedWorld\<close>, which the function builds and drops.
\<close>

theorem createOperation_drops_updatedWorld:
  "createOperation empty_world add_operation = Inr (empty_world, add_operation)
   \<and> operations empty_world ''add'' = None
   \<and> operations (updatedWorld empty_world add_operation) ''add'' = Some add_operation"
  by (simp add: createOperation_def empty_world_def createWorld_def updatedWorld_def
      add_operation_def)

text \<open>
  C5, as claimed: registering a descriptor whose name and version are already in the
  catalog fails. It does not: in a world whose catalog holds \<^verbatim>\<open>add\<close>, registering
  \<^verbatim>\<open>add\<close> again returns the operation.
\<close>

theorem createOperation_duplicate_counterexample:
  "operations (updatedWorld empty_world add_operation) (Operation.name add_operation)
     = Some add_operation
   \<and> createOperation (updatedWorld empty_world add_operation) add_operation
     = Inr (updatedWorld empty_world add_operation, add_operation)"
  by (simp add: createOperation_def updatedWorld_def)

text \<open>
  C5, amended. \<^verbatim>\<open>createOperation\<close> makes no check for duplicates and never fails:
  for every world and every descriptor, whether or not its name and version are
  already in the catalog, the call returns that descriptor.
\<close>

theorem createOperation_never_fails:
  "map_sum id snd (createOperation world d) = Inr d"
  by (simp add: createOperation_def)

subsection \<open>Applying traits\<close>





subsection \<open>Subscribers\<close>

lemma notified_calls [simp]: "notified (foldl bus_call_apply b calls) = notified b"
proof (induction calls arbitrary: b)
  case Nil
  show ?case by simp
next
  case (Cons c calls)
  show ?case by (cases c) (simp_all add: Cons.IH subscribe_def unsubscribe_def)
qed

lemma subscribers_calls_cong:
  "subscribers b = subscribers b' \<Longrightarrow>
   subscribers (foldl bus_call_apply b calls) = subscribers (foldl bus_call_apply b' calls)"
proof (induction calls arbitrary: b b')
  case Nil
  then show ?case by simp
next
  case (Cons c calls)
  have "subscribers (bus_call_apply b c) = subscribers (bus_call_apply b' c)"
    using Cons.prems by (cases c) (simp_all add: subscribe_def unsubscribe_def)
  from Cons.IH [OF this] show ?case by simp
qed

lemma subscribers_only_subscribe:
  "\<forall>c\<in>set calls. \<exists>g. c = Subscribe g \<Longrightarrow>
   subscribers (foldl bus_call_apply b calls) = subscribers b @ List.map_filter subscribed_by calls"
proof (induction calls arbitrary: b)
  case Nil
  show ?case by (simp add:)
next
  case (Cons c calls)
  from Cons.prems obtain g where c: "c = Subscribe g" by auto
  from Cons.prems have "\<forall>c\<in>set calls. \<exists>g. c = Subscribe g" by simp
  from Cons.IH [OF this, of "subscribe g b"] show ?case
    by (simp add: c subscribe_def)
qed

lemma notified_notify: "notified (notify hs args g b) = notified b @ [(g, args)]"
  by (simp add: notify_def Let_def split: prod.splits option.splits)

lemma subscribers_notify:
  "subscribers (notify hs args g b)
     = subscribers (foldl bus_call_apply b (fst (hs (notified b) g args)))"
proof -
  obtain calls outcome where h: "hs (notified b) g args = (calls, outcome)"
    by (cases "hs (notified b) g args")
  have "subscribers (foldl bus_call_apply (b\<lparr>notified := notified b @ [(g, args)]\<rparr>) calls)
          = subscribers (foldl bus_call_apply b calls)"
    by (rule subscribers_calls_cong) simp
  then show ?thesis by (cases outcome) (simp_all add: notify_def h Let_def)
qed

lemma forEach_subscribe_only:
  assumes "\<forall>g\<in>set (take len (subscribers b)). \<forall>hist. \<forall>c\<in>set (fst (hs hist g args)). \<exists>g'. c = Subscribe g'"
    and "len \<le> length (subscribers b)"
    and "k \<le> len"
  shows "\<exists>ext. subscribers (forEach hs args len k b) = subscribers b @ ext
           \<and> set ext \<subseteq> {g'. \<exists>hist g. Subscribe g' \<in> set (fst (hs hist g args))}
           \<and> notified (forEach hs args len k b)
               = notified b @ map (\<lambda>g. (g, args)) (drop k (take len (subscribers b)))"
  using assms
proof (induction hs args len k b rule: forEach.induct)
  case (1 hs args len k b)
  show ?case
  proof (cases "k < len")
    case False
    then show ?thesis using "1.prems" by (simp add: forEach.simps)
  next
    case True
    let ?g = "subscribers b ! k"
    let ?b1 = "notify hs args ?g b"
    have klen: "k < length (subscribers b)" using True "1.prems" by simp
    have gin: "?g \<in> set (take len (subscribers b))"
      using True klen by (auto simp: in_set_conv_nth intro!: exI [of _ k])
    then have only: "\<forall>c\<in>set (fst (hs (notified b) ?g args)). \<exists>g'. c = Subscribe g'"
      using "1.prems" by blast
    have s1: "subscribers ?b1 = subscribers b @ List.map_filter subscribed_by (fst (hs (notified b) ?g args))"
      by (simp add: subscribers_notify subscribers_only_subscribe [OF only])
    have tk: "take len (subscribers ?b1) = take len (subscribers b)"
      using "1.prems" by (simp add: s1)
    have p1: "\<forall>g\<in>set (take len (subscribers ?b1)). \<forall>hist. \<forall>c\<in>set (fst (hs hist g args)). \<exists>g'. c = Subscribe g'"
      using "1.prems" by (simp add: tk)
    have p2: "len \<le> length (subscribers ?b1)" using "1.prems" by (simp add: s1)
    have p3: "Suc k \<le> len" using True by simp
    from "1.IH"(1) [OF True klen p1 p2 p3]
    obtain ext where e: "subscribers (forEach hs args len (Suc k) ?b1) = subscribers ?b1 @ ext"
      "set ext \<subseteq> {g'. \<exists>hist g. Subscribe g' \<in> set (fst (hs hist g args))}"
      "notified (forEach hs args len (Suc k) ?b1)
         = notified ?b1 @ map (\<lambda>g. (g, args)) (drop (Suc k) (take len (subscribers ?b1)))"
      by blast
    have unf: "forEach hs args len k b = forEach hs args len (Suc k) ?b1"
      using True klen by (subst forEach.simps) simp
    have sub: "set (List.map_filter subscribed_by (fst (hs (notified b) ?g args)))
                 \<subseteq> {g'. \<exists>hist g. Subscribe g' \<in> set (fst (hs hist g args))}"
    proof
      fix x assume "x \<in> set (List.map_filter subscribed_by (fst (hs (notified b) ?g args)))"
      then obtain c where cin: "c \<in> set (fst (hs (notified b) ?g args))" and sb: "subscribed_by c = Some x"
        by (auto simp: List.map_filter_def)
      have "c = Subscribe x" using sb by (cases c) simp_all
      with cin have "Subscribe x \<in> set (fst (hs (notified b) ?g args))" by simp
      then show "x \<in> {g'. \<exists>hist g. Subscribe g' \<in> set (fst (hs hist g args))}" by blast
    qed
    have "drop k (take len (subscribers b))
            = take len (subscribers b) ! k # drop (Suc k) (take len (subscribers b))"
      using True klen by (intro Cons_nth_drop_Suc [symmetric]) simp
    then have dr: "drop k (take len (subscribers b)) = ?g # drop (Suc k) (take len (subscribers b))"
      using True by simp
    have a: "subscribers (forEach hs args len k b)
               = subscribers b @ (List.map_filter subscribed_by (fst (hs (notified b) ?g args)) @ ext)"
      by (simp add: unf e(1) s1)
    have b: "set (List.map_filter subscribed_by (fst (hs (notified b) ?g args)) @ ext)
               \<subseteq> {g'. \<exists>hist g. Subscribe g' \<in> set (fst (hs hist g args))}"
      using e(2) sub by simp
    have c: "notified (forEach hs args len k b)
               = notified b @ map (\<lambda>g. (g, args)) (drop k (take len (subscribers b)))"
      by (simp add: unf e(3) tk notified_notify dr)
    from a b c show ?thesis by blast
  qed
qed



lemma console_calls [simp]: "console_error (foldl bus_call_apply b calls) = console_error b"
proof (induction calls arbitrary: b)
  case Nil
  show ?case by simp
next
  case (Cons c calls)
  show ?case by (cases c) (simp_all add: Cons.IH subscribe_def unsubscribe_def)
qed

lemma console_notify:
  "console_error (notify hs args g b)
     = console_error b @ (case snd (hs (notified b) g args) of None \<Rightarrow> [] | Some e \<Rightarrow> [e])"
  by (cases "hs (notified b) g args") (simp add: notify_def Let_def split: option.splits)



lemma operationFn_committed:
  assumes "Operation.operation op args = Inr result"
    and "\<forall>g\<in>set (subscribers b). \<forall>hist. \<forall>c\<in>set (fst (hs hist g args)). \<exists>g'. c = Subscribe g'"
  shows "\<exists>ext. subscribers (snd (operationFn op hs args b)) = subscribers b @ ext
           \<and> set ext \<subseteq> {g'. \<exists>hist g. Subscribe g' \<in> set (fst (hs hist g args))}
           \<and> notified (snd (operationFn op hs args b))
               = notified b @ map (\<lambda>g. (g, args)) (subscribers b)"
  using forEach_subscribe_only [of "length (subscribers b)" b hs args 0] assms
  by (simp add: operationFn_def)






lemma forEach_silenced:
  "subscribers b = subscribers b' \<Longrightarrow> notified b = notified b' \<Longrightarrow>
   subscribers (forEach hs args len k b) = subscribers (forEach (silenced hs) args len k b')
   \<and> notified (forEach hs args len k b) = notified (forEach (silenced hs) args len k b')"
proof (induction hs args len k b arbitrary: b' rule: forEach.induct)
  case (1 hs args len k b)
  show ?case
  proof (cases "k < len")
    case False
    then show ?thesis using "1.prems" by (simp add: forEach.simps)
  next
    case True
    show ?thesis
    proof (cases "k < length (subscribers b)")
      case False
      have "forEach hs args len k b = forEach hs args len (Suc k) b"
        using True False by (subst forEach.simps) simp
      moreover have "forEach (silenced hs) args len k b' = forEach (silenced hs) args len (Suc k) b'"
        using True False "1.prems"(1) by (subst forEach.simps) simp
      ultimately show ?thesis using "1.IH"(2) [OF True False "1.prems"] by simp
    next
      case klen: True
      let ?g = "subscribers b ! k"
      have u1: "forEach hs args len k b = forEach hs args len (Suc k) (notify hs args ?g b)"
        using True klen by (subst forEach.simps) simp
      have u2: "forEach (silenced hs) args len k b'
                  = forEach (silenced hs) args len (Suc k) (notify (silenced hs) args ?g b')"
        using True klen "1.prems"(1) by (subst forEach.simps) simp
      have s: "subscribers (notify hs args ?g b) = subscribers (notify (silenced hs) args ?g b')"
        using subscribers_calls_cong [OF "1.prems"(1)]
        by (simp add: subscribers_notify silenced_def "1.prems"(2))
      have n: "notified (notify hs args ?g b) = notified (notify (silenced hs) args ?g b')"
        using "1.prems"(2) by (simp add: notified_notify)
      from "1.IH"(1) [OF True klen s n] show ?thesis by (simp add: u1 u2)
    qed
  qed
qed

lemma forEach_console:
  assumes "\<forall>g\<in>set (take len (subscribers b)). \<forall>hist. \<forall>c\<in>set (fst (hs hist g args)). \<exists>g'. c = Subscribe g'"
    and "len \<le> length (subscribers b)"
    and "k \<le> len"
  shows "console_error (forEach hs args len k b)
           = console_error b @ thrown_by hs args (notified b) (drop k (take len (subscribers b)))"
  using assms
proof (induction hs args len k b rule: forEach.induct)
  case (1 hs args len k b)
  show ?case
  proof (cases "k < len")
    case False
    then show ?thesis using "1.prems" by (simp add: forEach.simps)
  next
    case True
    let ?g = "subscribers b ! k"
    let ?b1 = "notify hs args ?g b"
    have klen: "k < length (subscribers b)" using True "1.prems" by simp
    have gin: "?g \<in> set (take len (subscribers b))"
      using True klen by (auto simp: in_set_conv_nth intro!: exI [of _ k])
    then have only: "\<forall>c\<in>set (fst (hs (notified b) ?g args)). \<exists>g'. c = Subscribe g'"
      using "1.prems" by blast
    have s1: "subscribers ?b1 = subscribers b @ List.map_filter subscribed_by (fst (hs (notified b) ?g args))"
      by (simp add: subscribers_notify subscribers_only_subscribe [OF only])
    have tk: "take len (subscribers ?b1) = take len (subscribers b)"
      using "1.prems" by (simp add: s1)
    have p1: "\<forall>g\<in>set (take len (subscribers ?b1)). \<forall>hist. \<forall>c\<in>set (fst (hs hist g args)). \<exists>g'. c = Subscribe g'"
      using "1.prems" by (simp add: tk)
    have p2: "len \<le> length (subscribers ?b1)" using "1.prems" by (simp add: s1)
    have p3: "Suc k \<le> len" using True by simp
    have unf: "forEach hs args len k b = forEach hs args len (Suc k) ?b1"
      using True klen by (subst forEach.simps) simp
    have "drop k (take len (subscribers b))
            = take len (subscribers b) ! k # drop (Suc k) (take len (subscribers b))"
      using True klen by (intro Cons_nth_drop_Suc [symmetric]) simp
    then have dr: "drop k (take len (subscribers b)) = ?g # drop (Suc k) (take len (subscribers b))"
      using True by simp
    from "1.IH"(1) [OF True klen p1 p2 p3] show ?thesis
      by (simp add: unf tk dr console_notify notified_notify split: option.splits)
  qed
qed

text \<open>
  What the \<^verbatim>\<open>try\<close>/\<^verbatim>\<open>catch\<close> around each handler call gives. Whatever the subscribed
  handlers throw, \<^verbatim>\<open>operationFn\<close> returns what the underlying operation returned, and
  the subscriber array and the handler calls are the same as if no handler had
  thrown. When the operation returns and no subscribed handler calls an unsubscribe
  function during the notification, every subscribed handler is called, in order,
  with the arguments, and each exception thrown by a handler is passed to
  \<^verbatim>\<open>console.error\<close>.
\<close>

lemma handler_throws_change_nothing:
  "fst (operationFn op hs args b) = Operation.operation op args
   \<and> subscribers (snd (operationFn op hs args b)) = subscribers (snd (operationFn op (silenced hs) args b))
   \<and> notified (snd (operationFn op hs args b)) = notified (snd (operationFn op (silenced hs) args b))
   \<and> ((\<exists>result. Operation.operation op args = Inr result)
        \<and> (\<forall>g\<in>set (subscribers b). \<forall>hist. \<forall>c\<in>set (fst (hs hist g args)). \<exists>g'. c = Subscribe g')
       \<longrightarrow> notified (snd (operationFn op hs args b)) = notified b @ map (\<lambda>g. (g, args)) (subscribers b)
           \<and> console_error (snd (operationFn op hs args b))
               = console_error b @ thrown_by hs args (notified b) (subscribers b))"
proof -
  have a: "fst (operationFn op hs args b) = Operation.operation op args"
    by (simp add: operationFn_def split: sum.splits)
  have b: "subscribers (snd (operationFn op hs args b)) = subscribers (snd (operationFn op (silenced hs) args b))
     \<and> notified (snd (operationFn op hs args b)) = notified (snd (operationFn op (silenced hs) args b))"
    using forEach_silenced [of b b hs args "length (subscribers b)" 0]
    by (simp add: operationFn_def split: sum.splits)
  have c: "notified (snd (operationFn op hs args b)) = notified b @ map (\<lambda>g. (g, args)) (subscribers b)
           \<and> console_error (snd (operationFn op hs args b))
               = console_error b @ thrown_by hs args (notified b) (subscribers b)"
    if r: "Operation.operation op args = Inr result"
      and q: "\<forall>g\<in>set (subscribers b). \<forall>hist. \<forall>c\<in>set (fst (hs hist g args)). \<exists>g'. c = Subscribe g'"
    for result
    using operationFn_committed [where hs = hs and b = b, OF r q] forEach_console [of "length (subscribers b)" b hs args 0] q
    by (auto simp: operationFn_def r)
  from a b c show ?thesis by blast
qed

text \<open>
  Handlers 1, 2 and 3 are subscribed and handler 1 throws: the call returns 8,
  all three handlers are called in order, and the error is logged.
\<close>

lemma handler_throws_change_nothing_example:
  "fst (operationFn add_operation example_handlers [JNum 5, JNum 3]
          (subscribe 3 (subscribe 2 (subscribe 1 on_bus)))) = Inr (JNum 8)
   \<and> notified (snd (operationFn add_operation example_handlers [JNum 5, JNum 3]
          (subscribe 3 (subscribe 2 (subscribe 1 on_bus)))))
       = [(1, [JNum 5, JNum 3]), (2, [JNum 5, JNum 3]), (3, [JNum 5, JNum 3])]
   \<and> console_error (snd (operationFn add_operation example_handlers [JNum 5, JNum 3]
          (subscribe 3 (subscribe 2 (subscribe 1 on_bus))))) = [Thrown ''boom'']"
proof -
  let ?b = "subscribe 3 (subscribe 2 (subscribe 1 on_bus))"
  have r: "\<exists>result. Operation.operation add_operation [JNum 5, JNum 3] = Inr result"
    by (simp add: add_operation_def)
  have q: "\<forall>g\<in>set (subscribers ?b).
             \<forall>hist. \<forall>c\<in>set (fst (example_handlers hist g [JNum 5, JNum 3])). \<exists>g'. c = Subscribe g'"
    by (simp add: example_handlers_def)
  from handler_throws_change_nothing [of add_operation example_handlers "[JNum 5, JNum 3]" ?b] r q
  have "fst (operationFn add_operation example_handlers [JNum 5, JNum 3] ?b)
          = Operation.operation add_operation [JNum 5, JNum 3]
        \<and> notified (snd (operationFn add_operation example_handlers [JNum 5, JNum 3] ?b))
          = notified ?b @ map (\<lambda>g. (g, [JNum 5, JNum 3])) (subscribers ?b)
        \<and> console_error (snd (operationFn add_operation example_handlers [JNum 5, JNum 3] ?b))
          = console_error ?b
              @ thrown_by example_handlers [JNum 5, JNum 3] (notified ?b) (subscribers ?b)"
    by blast
  then show ?thesis
    by (simp add: subscribe_def on_bus_def add_operation_def example_handlers_def)
qed

text \<open>
  C8. When a subscribed handler throws, every remaining subscribed handler is claimed
  to be still notified, and the operation function to return the operation's result.
  Evaluated with handlers 1, 2 and 3 subscribed, where handler 1 calls its own
  unsubscribe function and then throws: the exception is caught and logged and the
  call returns 8, but the \<^verbatim>\<open>splice\<close> moves handler 2 to index 0 while \<^verbatim>\<open>forEach\<close>
  goes on at index 1. Handler 3 is called; handler 2, still subscribed, is not.
\<close>

theorem handler_exception_skips_next_handler:
  "fst (operationFn add_operation once_throwing_handlers [JNum 5, JNum 3]
          (subscribe 3 (subscribe 2 (subscribe 1 on_bus)))) = Inr (JNum 8)
   \<and> notified (snd (operationFn add_operation once_throwing_handlers [JNum 5, JNum 3]
          (subscribe 3 (subscribe 2 (subscribe 1 on_bus)))))
       = [(1, [JNum 5, JNum 3]), (3, [JNum 5, JNum 3])]
   \<and> console_error (snd (operationFn add_operation once_throwing_handlers [JNum 5, JNum 3]
          (subscribe 3 (subscribe 2 (subscribe 1 on_bus))))) = [Thrown ''boom'']
   \<and> subscribers (snd (operationFn add_operation once_throwing_handlers [JNum 5, JNum 3]
          (subscribe 3 (subscribe 2 (subscribe 1 on_bus))))) = [2, 3]"
  by code_simp

subsection \<open>Mutations that record no change\<close>

lemma write_prop_same:
  assumes "objs h a key = v"
  shows "write_prop h a key v = h"
proof -
  from assms have "(objs h a)(key := v) = objs h a" by (simp add: fun_upd_idem)
  then show ?thesis by (simp add: write_prop_def)
qed

lemma not_strict_neq: "\<not> strict_neq a b \<Longrightarrow> a = b"
  by (simp add: strict_neq_def)

lemma assign_same:
  "writes_same h target s \<Longrightarrow> assign h changes target s = Inr (h, changes)"
proof (cases s)
  case (Assign ps key v)
  assume w: "writes_same h target s"
  show ?thesis
  proof (cases "resolve h (Proxied target []) ps")
    case (Inl e)
    with w Assign show ?thesis by simp
  next
    case (Inr c)
    show ?thesis
    proof (cases c)
      case (Proxied a path0)
      with w Assign Inr have n: "\<not> strict_neq (objs h a key) v" by simp
      then have "objs h a key = v" by (rule not_strict_neq)
      with n show ?thesis
        by (simp add: Assign Inr Proxied draft_set_def write_prop_same)
    next
      case (Raw x)
      show ?thesis
      proof (cases "object_of x")
        case None
        with w Assign Inr Raw show ?thesis by simp
      next
        case (Some a)
        with w Assign Inr Raw have "\<not> strict_neq (objs h a key) v" by simp
        then have "objs h a key = v" by (rule not_strict_neq)
        then show ?thesis by (simp add: Assign Inr Raw Some write_prop_same)
      qed
    qed
  qed
qed

lemma run_mutator_same:
  "all_write_same h target ss \<Longrightarrow> run_mutator h changes target ss = Inr (h, changes)"
proof (induction ss)
  case Nil
  show ?case by simp
next
  case (Cons s ss)
  from Cons.prems have w: "writes_same h target s" by simp
  from Cons.prems have "all_write_same h target ss"
    by (simp add: assign_same [OF w])
  with Cons.IH show ?case by (simp add: assign_same [OF w])
qed

text \<open>
  C10. When every assignment the mutator performs writes a value that is not \<^verbatim>\<open>!==\<close>
  the value already present, \<^verbatim>\<open>mutate\<close> returns the entity instance it was given,
  calls no function of it (\<^verbatim>\<open>save\<close> is not invoked), and leaves the heap as it was
  after the two copies of the entity were made.
\<close>

theorem mutate_without_changes_returns_entity:
  assumes "recordsNoChanges h entity mutator0"
  shows "mutate world h entity mutator0
           = Inr (Entity entity, snd (spread (snd (spread h entity)) entity), [])"
proof -
  obtain target h1 where s1: "spread h entity = (target, h1)" by (cases "spread h entity")
  obtain base h2 where s2: "spread h1 entity = (base, h2)" by (cases "spread h1 entity")
  from assms have "all_write_same h2 target mutator0"
    by (simp add: recordsNoChanges_def s1 s2)
  then have "run_mutator h2 [] target mutator0 = Inr (h2, [])" by (rule run_mutator_same)
  then show ?thesis by (simp add: mutate_def s1 s2)
qed

text \<open>
  A mutator that writes the present values of \<^verbatim>\<open>name\<close>, of \<^verbatim>\<open>size.width\<close> and of
  \<^verbatim>\<open>tags[0]\<close> to the product entity at address 0.
\<close>

theorem mutate_without_changes_returns_entity_witness:
  "recordsNoChanges product_heap 0
     [Assign [] ''name'' (JStr ''Widget''), Assign [''size''] ''width'' (JNum 3),
      Assign [''tags''] ''0'' (JStr ''new'')]
   \<and> mutate empty_world product_heap 0
       [Assign [] ''name'' (JStr ''Widget''), Assign [''size''] ''width'' (JNum 3),
        Assign [''tags''] ''0'' (JStr ''new'')]
     = Inr (Entity 0, snd (spread (snd (spread product_heap 0)) 0), [])"
proof -
  have h: "recordsNoChanges product_heap 0
     [Assign [] ''name'' (JStr ''Widget''), Assign [''size''] ''width'' (JNum 3),
      Assign [''tags''] ''0'' (JStr ''new'')]"
    by code_simp
  from h mutate_without_changes_returns_entity [OF h, of empty_world] show ?thesis
    by (rule conjI)
qed

end
